theory Spec2Isabelle
  imports Complex_Main
begin

section \<open>Mind-Mate: the trend analysis engine of backend/jac/engine.py\<close>

text \<open>
  The embedding follows \<^verbatim>\<open>trend_analyzer\<close>, its nested \<^verbatim>\<open>counts_by_emotion\<close> and
  \<^verbatim>\<open>_linear_slope\<close>. Conventions:
  \<^item> an aware UTC \<^verbatim>\<open>datetime\<close> is the number of microseconds since
    0001-01-01T00:00:00 (\<^verbatim>\<open>int\<close>); a \<^verbatim>\<open>timedelta\<close> is a number of microseconds;
  \<^item> Python's \<^verbatim>\<open>float\<close> results (slope, mean, norm\_slope) are the exact quotients in
    \<open>real\<close>: the counts are integers, all sums and products of the source (and the test
    \<^verbatim>\<open>denom == 0\<close>) are exact integer operations, and only the three divisions produce
    floats, whose rounding is left out. The comparisons with the literal \<^verbatim>\<open>0.15\<close> are
    comparisons with \<open>15 / 100\<close>: no double lies between the double nearest to 0.15 and
    \<open>15 / 100\<close>, so both give the same answer on every double;
  \<^item> \<^verbatim>\<open>datetime.fromisoformat\<close> followed by the normalisation to UTC is library code and
    is a parameter \<open>parse\<close>: \<open>None\<close> when any step of it raises;
  \<^item> a Python \<^verbatim>\<open>dict\<close> is an association list with distinct keys in insertion order;
  \<^item> the store \<^verbatim>\<open>JacRuntime.exec_ctx.mem\<close> is the list of its anchors, in the order
    \<^verbatim>\<open>query\<close> iterates them.
\<close>

subsection \<open>Time\<close>

datatype error = OverflowError

definition DAY_US :: int where
  "DAY_US = 86400000000"

definition SECOND_US :: int where
  "SECOND_US = 1000000"

text \<open>\<^verbatim>\<open>datetime.max\<close> is the last microsecond of ordinal day 3652059 (9999-12-31).\<close>

definition MAXORDINAL :: int where
  "MAXORDINAL = 3652059"

text \<open>\<^verbatim>\<open>timedelta(days=d)\<close>: raises OverflowError when \<open>|d| > 999999999\<close>.\<close>

definition timedelta_days :: "int \<Rightarrow> error + int" where
  "timedelta_days d =
     (if - 999999999 \<le> d \<and> d \<le> 999999999 then Inr (d * DAY_US) else Inl OverflowError)"

text \<open>\<^verbatim>\<open>dt - delta\<close>: raises OverflowError when the result leaves the range of datetime.\<close>

definition dt_sub :: "int \<Rightarrow> int \<Rightarrow> error + int" where
  "dt_sub t delta =
     (let r = t - delta
      in if 0 \<le> r \<and> r < MAXORDINAL * DAY_US then Inr r else Inl OverflowError)"

text \<open>\<^verbatim>\<open>t.replace(hour=0, minute=0, second=0, microsecond=0)\<close>\<close>

definition start_of_day :: "int \<Rightarrow> int" where
  "start_of_day t = t - t mod DAY_US"

text \<open>\<^verbatim>\<open>(a - b).days\<close>: a timedelta is normalised with \<open>0 \<le> seconds\<close>, so days is the floor.\<close>

definition delta_days :: "int \<Rightarrow> int \<Rightarrow> int" where
  "delta_days a b = (a - b) div DAY_US"

subsection \<open>The store\<close>

text \<open>A mood tag is a string or some other Python value (\<^verbatim>\<open>isinstance(m, str)\<close>).\<close>

datatype tag = Str string | NonStr

text \<open>
  The attribute \<^verbatim>\<open>moods_detected\<close>: absent or falsy (\<open>MoodsNone\<close>), a list of tags, or a
  truthy value that cannot be iterated (\<open>MoodsNonIterable\<close>: the \<^verbatim>\<open>for\<close> raises TypeError).
\<close>

datatype moods = MoodsNone | MoodsList "tag list" | MoodsNonIterable

record journal_entry =
  entry_id :: string
  timestamp :: "string option"
  entry_text :: string
  moods_detected :: moods
  score :: "real option"
  user_id :: string

record emotion =
  name :: string
  valence :: real
  intensity :: real
  last_seen :: "string option"
  trend :: "string option"
  trend_score :: "real option"

datatype archetype =
    JournalEntry journal_entry
  | Emotion emotion
  | Trigger string
  | OtherArchetype

text \<open>An anchor and its \<^verbatim>\<open>archetype\<close> attribute, which may be None.\<close>

type_synonym anchor = "archetype option"

text \<open>\<^verbatim>\<open>mem.query(lambda a: getattr(a, "archetype", None) is not None)\<close>\<close>

definition query :: "anchor list \<Rightarrow> archetype list" where
  "query mem = List.map_filter (\<lambda>a. a) mem"

subsection \<open>The slope estimator\<close>

text \<open>\<^verbatim>\<open>_linear_slope\<close> (lines 106-120).\<close>

definition linear_slope :: "real list \<Rightarrow> real" where
  "linear_slope y =
     (let n = length y
      in if n = 0 then 0
         else
           let xs = [0..<n];
               sx = sum_list (map real xs);
               sy = sum_list y;
               sxx = sum_list (map (\<lambda>x. real x * real x) xs);
               sxy = sum_list (map (\<lambda>(x, yy). real x * yy) (zip xs y));
               denom = real n * sxx - sx * sx
           in if denom = 0 then 0 else (real n * sxy - sx * sy) / denom)"

subsection \<open>The trend classifier\<close>

text \<open>Line 192: \<^verbatim>\<open>norm_slope = slope / max(1.0, mean)\<close>\<close>

definition normalize_slope :: "real \<Rightarrow> real \<Rightarrow> real" where
  "normalize_slope s m = s / max 1 m"

text \<open>Lines 193-197.\<close>

definition classify :: "real \<Rightarrow> string" where
  "classify ns =
     (if ns > 15 / 100 then ''rising''
      else if ns < - (15 / 100) then ''falling''
      else ''stable'')"

record stat =
  slope :: real
  mean :: real
  norm_slope :: real
  stat_trend :: string

text \<open>Lines 190-198, for one count array.\<close>

definition compute_stat :: "int list \<Rightarrow> stat" where
  "compute_stat counts =
     (let s = linear_slope (map real_of_int counts);
          m = real_of_int (sum_list counts) / real_of_int (max 1 (int (length counts)));
          ns = normalize_slope s m
      in \<lparr>slope = s, mean = m, norm_slope = ns, stat_trend = classify ns\<rparr>)"

subsection \<open>The counter aggregator\<close>

type_synonym counts_map = "(string \<times> int list) list"

text \<open>\<^verbatim>\<open>d.setdefault(k, v)\<close>: inserts at the end when the key is new.\<close>

definition setdefault :: "counts_map \<Rightarrow> string \<Rightarrow> int list \<Rightarrow> counts_map" where
  "setdefault cm k v = (case map_of cm k of None \<Rightarrow> cm @ [(k, v)] | Some c \<Rightarrow> cm)"

text \<open>Assignment to an existing key keeps its position.\<close>

definition assign :: "counts_map \<Rightarrow> string \<Rightarrow> int list \<Rightarrow> counts_map" where
  "assign cm k v = map (\<lambda>(k', c). if k' = k then (k', v) else (k', c)) cm"

text \<open>
  Lines 176-179, the loop over the moods of one entry, for a day index already known to
  be non-negative. An index beyond the array would raise IndexError, which the enclosing
  \<^verbatim>\<open>except Exception\<close> swallows: the rest of the entry is dropped.
\<close>

fun bin_moods :: "int \<Rightarrow> nat \<Rightarrow> tag list \<Rightarrow> counts_map \<Rightarrow> counts_map" where
  "bin_moods days day_idx [] cm = cm"
| "bin_moods days day_idx (NonStr # ms) cm = bin_moods days day_idx ms cm"
| "bin_moods days day_idx (Str m # ms) cm =
     (let cm' = setdefault cm m (replicate (nat days) 0)
      in case map_of cm' m of
           None \<Rightarrow> cm'
         | Some c \<Rightarrow>
             if day_idx < length c
             then bin_moods days day_idx ms (assign cm' m (c[day_idx := c ! day_idx + 1]))
             else cm')"

text \<open>Line 170.\<close>

definition in_window :: "int \<Rightarrow> int \<Rightarrow> int \<Rightarrow> bool" where
  "in_window start end t = (start \<le> t \<and> t \<le> end)"

text \<open>Lines 146-152, one step of the pre-seeding loop.\<close>

definition preseed :: "int \<Rightarrow> archetype \<Rightarrow> counts_map \<Rightarrow> counts_map" where
  "preseed days arch cm =
     (case arch of
        Emotion e \<Rightarrow> setdefault cm (name e) (replicate (nat days) 0)
      | _ \<Rightarrow> cm)"

text \<open>
  Lines 155-181, one step of the scan. Every \<^verbatim>\<open>continue\<close> and every swallowed exception
  returns the map as it is. A falsy timestamp is \<open>None\<close> or the empty string. An archetype
  is an object, never a \<^verbatim>\<open>dict\<close>, so the \<^verbatim>\<open>isinstance(arch, dict)\<close> alternatives are not
  taken and falsy moods become the empty list.
\<close>

definition scan_entry ::
  "(string \<Rightarrow> int option) \<Rightarrow> int \<Rightarrow> int \<Rightarrow> int \<Rightarrow> archetype \<Rightarrow> counts_map \<Rightarrow> counts_map" where
  "scan_entry parse start end days arch cm =
     (case arch of
        JournalEntry je \<Rightarrow>
          (case timestamp je of
             None \<Rightarrow> cm
           | Some ts_raw \<Rightarrow>
               if ts_raw = [] then cm
               else
                 (case parse ts_raw of
                    None \<Rightarrow> cm
                  | Some t \<Rightarrow>
                      if \<not> in_window start end t then cm
                      else
                        let day_idx = delta_days (start_of_day t) start
                        in if day_idx < 0 \<or> day_idx \<ge> days then cm
                           else
                             (case moods_detected je of
                                MoodsNone \<Rightarrow> cm
                              | MoodsList ms \<Rightarrow> bin_moods days (nat day_idx) ms cm
                              | MoodsNonIterable \<Rightarrow> cm)))
      | _ \<Rightarrow> cm)"

text \<open>\<^verbatim>\<open>counts_by_emotion\<close> (lines 141-182).\<close>

definition counts_by_emotion ::
  "(string \<Rightarrow> int option) \<Rightarrow> anchor list \<Rightarrow> int \<Rightarrow> int \<Rightarrow> int \<Rightarrow> counts_map" where
  "counts_by_emotion parse mem start end days =
     fold (scan_entry parse start end days) (query mem)
       (fold (preseed days) (query mem) [])"

subsection \<open>The orchestrator\<close>

text \<open>
  Lines 201-210: the first Emotion anchor with the given name gets the trend and the
  score, and the search stops there.
\<close>

fun update_emotion :: "string \<Rightarrow> string \<Rightarrow> real \<Rightarrow> anchor list \<Rightarrow> anchor list" where
  "update_emotion em tr ns [] = []"
| "update_emotion em tr ns (None # rest) = None # update_emotion em tr ns rest"
| "update_emotion em tr ns (Some (Emotion e) # rest) =
     (if name e = em
      then Some (Emotion (e\<lparr>trend := Some tr, trend_score := Some ns\<rparr>)) # rest
      else Some (Emotion e) # update_emotion em tr ns rest)"
| "update_emotion em tr ns (Some a # rest) = Some a # update_emotion em tr ns rest"

text \<open>Lines 188-210: the loop over \<^verbatim>\<open>current_counts.items()\<close>.\<close>

fun stats_loop :: "counts_map \<Rightarrow> anchor list \<Rightarrow> (string \<times> stat) list \<times> anchor list" where
  "stats_loop [] mem = ([], mem)"
| "stats_loop ((em, counts) # rest) mem =
     (let st = compute_stat counts;
          mem' = update_emotion em (stat_trend st) (norm_slope st) mem;
          (stats, mem'') = stats_loop rest mem'
      in ((em, st) # stats, mem''))"

record analysis =
  current :: counts_map
  prev :: counts_map
  stats :: "(string \<times> stat) list"

text \<open>Line 138.\<close>

definition window_start :: "int \<Rightarrow> int \<Rightarrow> error + int" where
  "window_start now window_days =
     (case timedelta_days window_days of
        Inl e \<Rightarrow> Inl e
      | Inr d \<Rightarrow> (case dt_sub now d of Inl e \<Rightarrow> Inl e | Inr a \<Rightarrow> Inr (start_of_day a)))"

text \<open>Line 139.\<close>

definition compare_start :: "int \<Rightarrow> int \<Rightarrow> error + int" where
  "compare_start ws compare_days =
     (case timedelta_days compare_days of
        Inl e \<Rightarrow> Inl e
      | Inr d \<Rightarrow> (case dt_sub ws d of Inl e \<Rightarrow> Inl e | Inr a \<Rightarrow> Inr (start_of_day a)))"

text \<open>Line 186: \<^verbatim>\<open>window_start - timedelta(seconds=1)\<close>\<close>

definition prev_end :: "int \<Rightarrow> error + int" where
  "prev_end ws = dt_sub ws SECOND_US"

text \<open>
  \<^verbatim>\<open>trend_analyzer\<close> (lines 123-212). The context is \<open>None\<close> when
  \<^verbatim>\<open>JacRuntime.exec_ctx is None\<close>; \<open>now\<close> is the value of \<^verbatim>\<open>datetime.now(timezone.utc)\<close>.
  The result carries the store after the write-back.
\<close>

definition trend_analyzer ::
  "(string \<Rightarrow> int option) \<Rightarrow> anchor list option \<Rightarrow> int \<Rightarrow> int \<Rightarrow> int
     \<Rightarrow> error + (analysis \<times> anchor list option)" where
  "trend_analyzer parse ctx now window_days compare_days =
     (case ctx of
        None \<Rightarrow> Inr (\<lparr>current = [], prev = [], stats = []\<rparr>, None)
      | Some mem \<Rightarrow>
          (case window_start now window_days of
             Inl e \<Rightarrow> Inl e
           | Inr ws \<Rightarrow>
               (case compare_start ws compare_days of
                  Inl e \<Rightarrow> Inl e
                | Inr cs \<Rightarrow>
                    let current_counts = counts_by_emotion parse mem ws now window_days
                    in (case prev_end ws of
                          Inl e \<Rightarrow> Inl e
                        | Inr pe \<Rightarrow>
                            let prev_counts = counts_by_emotion parse mem cs pe compare_days;
                                (sts, mem') = stats_loop current_counts mem
                            in Inr (\<lparr>current = current_counts, prev = prev_counts, stats = sts\<rparr>,
                                    Some mem')))))"

subsection \<open>Reading an anchor\<close>

text \<open>
  Two auxiliary readings of an anchor, used to state what the write-back touches: the
  name of the Emotion it holds, if any, and the anchor with the two trend fields set
  (lines 205-206).
\<close>

definition emotion_name :: "anchor \<Rightarrow> string option" where
  "emotion_name a = (case a of Some (Emotion e) \<Rightarrow> Some (name e) | _ \<Rightarrow> None)"

definition set_trend :: "string \<Rightarrow> real \<Rightarrow> anchor \<Rightarrow> anchor" where
  "set_trend tr ns a =
     (case a of
        Some (Emotion e) \<Rightarrow> Some (Emotion (e\<lparr>trend := Some tr, trend_score := Some ns\<rparr>))
      | _ \<Rightarrow> a)"

subsection \<open>Sample inputs\<close>

text \<open>
  A store and a clock for the concrete runs below: the analysis takes place at
  2026-11-03T12:00:00 UTC; \<open>sample_parse\<close> knows the two ISO strings the sample entries use
  and fails on every other string.
\<close>

definition sample_now :: int where
  "sample_now = 63929304000000000"

definition sample_parse :: "string \<Rightarrow> int option" where
  "sample_parse s =
     (if s = ''2026-11-03T12:00:00+00:00'' then Some 63929304000000000
      else if s = ''2026-11-02T09:30:00+00:00'' then Some 63929208600000000
      else None)"

definition sample_today_entry :: journal_entry where
  "sample_today_entry =
     \<lparr>entry_id = ''je:2026-11-03T12:00:00+00:00'',
      timestamp = Some ''2026-11-03T12:00:00+00:00'',
      entry_text = [],
      moods_detected = MoodsList [Str ''joy''],
      score = None,
      user_id = ''u1''\<rparr>"

definition sample_yesterday_entry :: journal_entry where
  "sample_yesterday_entry =
     \<lparr>entry_id = ''je:2026-11-02T09:30:00+00:00'',
      timestamp = Some ''2026-11-02T09:30:00+00:00'',
      entry_text = [],
      moods_detected = MoodsList [Str ''joy'', NonStr, Str ''calm'', Str ''joy''],
      score = None,
      user_id = ''u1''\<rparr>"

definition sample_bad_entry :: journal_entry where
  "sample_bad_entry =
     \<lparr>entry_id = ''je:yesterday'',
      timestamp = Some ''yesterday'',
      entry_text = [],
      moods_detected = MoodsList [Str ''joy''],
      score = None,
      user_id = ''u1''\<rparr>"

definition sample_joy :: emotion where
  "sample_joy =
     \<lparr>name = ''joy'', valence = 0, intensity = 0,
      last_seen = Some ''2026-11-03T12:00:00+00:00'', trend = None, trend_score = None\<rparr>"

section \<open>Properties\<close>

subsection \<open>The slope estimator\<close>










subsection \<open>The trend classifier\<close>


subsection \<open>The degraded mode\<close>

text \<open>
  Claim C8. Without a runtime context the analyzer returns the three empty structures,
  for every window length, and leaves the context absent.
\<close>

theorem no_context_empty_result:
  "trend_analyzer parse None now window_days compare_days
     = Inr (\<lparr>current = [], prev = [], stats = []\<rparr>, None)"
  by (simp add: trend_analyzer_def)

subsection \<open>Calendar arithmetic\<close>

lemma DAY_US_pos: "0 < DAY_US"
  by (simp add: DAY_US_def)

lemma start_of_day_eq: "start_of_day t = t div DAY_US * DAY_US"
  by (simp add: start_of_day_def minus_mod_eq_div_mult)

lemma start_of_day_div: "start_of_day t div DAY_US = t div DAY_US"
  using DAY_US_pos by (simp add: start_of_day_eq)

lemma shift_div: "(t - d * DAY_US) div DAY_US = t div DAY_US - d"
proof -
  have "(t + (- d) * DAY_US) div DAY_US = - d + t div DAY_US"
    using DAY_US_pos by (subst div_mult_self1) simp_all
  then show ?thesis by simp
qed

lemma div_less_iff: "r div DAY_US < M \<longleftrightarrow> r < M * DAY_US"
proof
  assume "r div DAY_US < M"
  then have "(r div DAY_US + 1) * DAY_US \<le> M * DAY_US"
    using DAY_US_pos by (intro mult_right_mono) simp_all
  moreover have "r div DAY_US * DAY_US + r mod DAY_US = r" by (rule div_mult_mod_eq)
  moreover have "r mod DAY_US < DAY_US" using DAY_US_pos by simp
  ultimately show "r < M * DAY_US" unfolding distrib_right by linarith
next
  assume lt: "r < M * DAY_US"
  show "r div DAY_US < M"
  proof (rule ccontr)
    assume "\<not> r div DAY_US < M"
    then have "M * DAY_US \<le> r div DAY_US * DAY_US"
      using DAY_US_pos by (intro mult_right_mono) simp_all
    moreover have "r div DAY_US * DAY_US + r mod DAY_US = r" by (rule div_mult_mod_eq)
    moreover have "0 \<le> r mod DAY_US" using DAY_US_pos by simp
    ultimately show False using lt by linarith
  qed
qed

lemma div_nonneg_iff: "0 \<le> r div DAY_US \<longleftrightarrow> 0 \<le> r"
  using DAY_US_pos by (simp add: pos_imp_zdiv_nonneg_iff)


lemma window_start_eq:
  "window_start now wd =
     (if - 999999999 \<le> wd \<and> wd \<le> 999999999
         \<and> 0 \<le> now div DAY_US - wd \<and> now div DAY_US - wd < MAXORDINAL
      then Inr ((now div DAY_US - wd) * DAY_US) else Inl OverflowError)"
proof -
  have range: "(0 \<le> now - wd * DAY_US \<and> now - wd * DAY_US < MAXORDINAL * DAY_US)
      \<longleftrightarrow> (0 \<le> now div DAY_US - wd \<and> now div DAY_US - wd < MAXORDINAL)"
    using div_less_iff [of "now - wd * DAY_US" MAXORDINAL] div_nonneg_iff [of "now - wd * DAY_US"]
    unfolding shift_div by simp
  have "start_of_day (now - wd * DAY_US) = (now div DAY_US - wd) * DAY_US"
    unfolding start_of_day_eq shift_div ..
  then show ?thesis
    unfolding window_start_def timedelta_days_def dt_sub_def Let_def
    using range by (simp del: mult_eq_0_iff)
qed

lemma window_start_same_day:
  "now div DAY_US = now' div DAY_US \<Longrightarrow> window_start now wd = window_start now' wd"
  by (simp add: window_start_eq)

lemma day_index_eq:
  "delta_days (start_of_day t) ((D - wd) * DAY_US) = t div DAY_US - D + wd"
proof -
  have "start_of_day t - (D - wd) * DAY_US = (t div DAY_US - D + wd) * DAY_US"
    by (simp add: start_of_day_eq algebra_simps)
  then show ?thesis using DAY_US_pos by (simp add: delta_days_def)
qed

subsection \<open>The store scan\<close>

lemma query_Nil: "query [] = []"
  by (simp add: query_def map_filter_simps)

lemma query_Cons: "query (a # mem) = (case a of None \<Rightarrow> query mem | Some x \<Rightarrow> x # query mem)"
  by (simp add: query_def map_filter_simps split: option.splits)

lemma query_append: "query (xs @ ys) = query xs @ query ys"
  by (induction xs) (simp_all add: query_Nil query_Cons split: option.splits)

lemma preseed_journal: "preseed days (JournalEntry je) cm = cm"
  by (simp add: preseed_def)

lemma counts_skip:
  assumes "\<And>cm. preseed days a cm = cm"
    and "\<And>cm. scan_entry parse start end days a cm = cm"
  shows "counts_by_emotion parse (xs @ Some a # ys) start end days
           = counts_by_emotion parse (xs @ ys) start end days"
  by (simp add: counts_by_emotion_def query_append query_Cons assms)

lemma scan_entry_today:
  assumes ws: "window_start now wd = Inr ws"
    and ts: "timestamp je = Some ts" "parse ts = Some t"
    and day: "t div DAY_US = now div DAY_US"
  shows "delta_days (start_of_day t) ws = wd"
    and "scan_entry parse ws end wd (JournalEntry je) cm = cm"
proof -
  from ws have ws_eq: "ws = (now div DAY_US - wd) * DAY_US"
    by (simp add: window_start_eq split: if_splits)
  show idx: "delta_days (start_of_day t) ws = wd"
    unfolding ws_eq day_index_eq using day by simp
  show "scan_entry parse ws end wd (JournalEntry je) cm = cm"
    using ts idx by (simp add: scan_entry_def Let_def)
qed

lemma trend_analyzer_Some:
  "trend_analyzer parse (Some mem) now wd cd = Inr (out, ctx') \<longleftrightarrow>
     (\<exists>ws cs pe. window_start now wd = Inr ws \<and> compare_start ws cd = Inr cs \<and> prev_end ws = Inr pe
        \<and> out = \<lparr>current = counts_by_emotion parse mem ws now wd,
                  prev = counts_by_emotion parse mem cs pe cd,
                  stats = fst (stats_loop (counts_by_emotion parse mem ws now wd) mem)\<rparr>
        \<and> ctx' = Some (snd (stats_loop (counts_by_emotion parse mem ws now wd) mem)))"
  by (auto simp add: trend_analyzer_def Let_def split: sum.splits prod.splits)

lemmas eval_defs =
  trend_analyzer_def window_start_def compare_start_def prev_end_def timedelta_days_def
  dt_sub_def DAY_US_def SECOND_US_def MAXORDINAL_def start_of_day_def delta_days_def
  in_window_def counts_by_emotion_def query_def map_filter_simps preseed_def scan_entry_def
  setdefault_def assign_def compute_stat_def linear_slope_def normalize_slope_def classify_def
  sample_now_def sample_parse_def sample_today_entry_def sample_yesterday_entry_def
  sample_bad_entry_def sample_joy_def Let_def

lemma replicate_7: "replicate 7 x = [x, x, x, x, x, x, x]"
  by (simp add: eval_nat_numeral)

lemma replicate_2: "replicate 2 x = [x, x]"
  by (simp add: eval_nat_numeral)

text \<open>
  Claim C1 (scenario B). The claim expects an entry tagged joy and stamped at the moment
  of the analysis to be counted in a one-day window: \<open>current["joy"] = [1]\<close>. The code
  puts the start of the window at the start of the day \<open>window_days\<close> days before now, so
  the entry of today has day index \<open>window_days\<close> and falls off the end of the array.
  With the entry alone in the store the key joy is absent from \<open>current\<close>; with the Emotion
  record that \<^verbatim>\<open>log_mood\<close> creates beside it, the count is \<open>[0]\<close> and the mean is 0.
\<close>

theorem scenario_B_entry_of_today_dropped:
  "trend_analyzer sample_parse (Some [Some (JournalEntry sample_today_entry)]) sample_now 1 7
     = Inr (\<lparr>current = [], prev = [], stats = []\<rparr>, Some [Some (JournalEntry sample_today_entry)])
   \<and> trend_analyzer sample_parse
        (Some [Some (JournalEntry sample_today_entry), Some (Emotion sample_joy)]) sample_now 1 7
     = Inr (\<lparr>current = [(''joy'', [0])],
            prev = [(''joy'', [0, 0, 0, 0, 0, 0, 0])],
            stats = [(''joy'', \<lparr>slope = 0, mean = 0, norm_slope = 0, stat_trend = ''stable''\<rparr>)]\<rparr>,
           Some [Some (JournalEntry sample_today_entry),
                 Some (Emotion (sample_joy\<lparr>trend := Some ''stable'', trend_score := Some 0\<rparr>))])"
  by (simp add: eval_defs replicate_7)

text \<open>
  Claim C2. An entry whose timestamp lies on the UTC calendar day of now has day index
  \<open>window_days\<close> in the current window, so the scan leaves the counts as they are: the
  counts over a store with the entry are the counts over the store without it, and so is
  the \<open>current\<close> field of the analyzer. For a non-negative window and an entry not later
  than now, the entry does pass the test \<open>window_start \<le> t \<le> now\<close>.
\<close>

theorem today_entries_excluded:
  assumes ws: "window_start now wd = Inr ws"
    and ts: "timestamp je = Some ts" "parse ts = Some t"
    and day: "t div DAY_US = now div DAY_US"
  shows "delta_days (start_of_day t) ws = wd
    \<and> scan_entry parse ws now wd (JournalEntry je) cm = cm
    \<and> counts_by_emotion parse (xs @ Some (JournalEntry je) # ys) ws now wd
        = counts_by_emotion parse (xs @ ys) ws now wd
    \<and> (\<forall>out ctx'. trend_analyzer parse (Some (xs @ Some (JournalEntry je) # ys)) now wd cd = Inr (out, ctx')
          \<longrightarrow> current out = counts_by_emotion parse (xs @ ys) ws now wd)
    \<and> (0 \<le> wd \<and> t \<le> now \<longrightarrow> in_window ws now t)"
proof (intro conjI allI impI)
  note today = scan_entry_today [where parse = parse, OF ws ts day]
  show "delta_days (start_of_day t) ws = wd"
    by (rule today(1))
  show "scan_entry parse ws now wd (JournalEntry je) cm = cm"
    by (rule today(2))
  show eq: "counts_by_emotion parse (xs @ Some (JournalEntry je) # ys) ws now wd
        = counts_by_emotion parse (xs @ ys) ws now wd"
    by (rule counts_skip) (simp_all add: preseed_journal today(2))
  show "current out = counts_by_emotion parse (xs @ ys) ws now wd"
    if "trend_analyzer parse (Some (xs @ Some (JournalEntry je) # ys)) now wd cd = Inr (out, ctx')"
    for out ctx'
    using that ws eq by (auto simp add: trend_analyzer_Some)
  show "in_window ws now t" if "0 \<le> wd \<and> t \<le> now"
  proof -
    from ws have ws_eq: "ws = (now div DAY_US - wd) * DAY_US"
      by (simp add: window_start_eq split: if_splits)
    have "(now div DAY_US - wd) * DAY_US \<le> now div DAY_US * DAY_US"
      using that DAY_US_pos by (intro mult_right_mono) simp_all
    moreover have "t div DAY_US * DAY_US + t mod DAY_US = t" by (rule div_mult_mod_eq)
    moreover have "0 \<le> t mod DAY_US" using DAY_US_pos by simp
    ultimately have "ws \<le> t" unfolding ws_eq day [symmetric] by linarith
    then show ?thesis using that by (simp add: in_window_def)
  qed
qed

theorem today_entries_excluded_witness:
  "window_start sample_now 1 = Inr 63929174400000000
   \<and> timestamp sample_today_entry = Some ''2026-11-03T12:00:00+00:00''
   \<and> sample_parse ''2026-11-03T12:00:00+00:00'' = Some sample_now
   \<and> delta_days (start_of_day sample_now) 63929174400000000 = 1
   \<and> counts_by_emotion sample_parse
        [Some (Emotion sample_joy), Some (JournalEntry sample_today_entry)]
        63929174400000000 sample_now 1
      = counts_by_emotion sample_parse [Some (Emotion sample_joy)] 63929174400000000 sample_now 1
   \<and> in_window 63929174400000000 sample_now sample_now"
proof -
  have ws: "window_start sample_now 1 = Inr 63929174400000000"
    by (simp add: eval_defs)
  have ts: "timestamp sample_today_entry = Some ''2026-11-03T12:00:00+00:00''"
    by (simp add: sample_today_entry_def)
  have p: "sample_parse ''2026-11-03T12:00:00+00:00'' = Some sample_now"
    by (simp add: sample_parse_def sample_now_def)
  have day: "sample_now div DAY_US = sample_now div DAY_US" ..
  show ?thesis
    using today_entries_excluded [where parse = sample_parse, OF ws ts p day, of "[]" "[Some (Emotion sample_joy)]" "[]" 7] ws ts p
    by simp
qed

subsection \<open>Lengths of the count arrays\<close>

lemma setdefault_lengths:
  "length v = n \<Longrightarrow> \<forall>kc\<in>set cm. length (snd kc) = n
     \<Longrightarrow> \<forall>kc\<in>set (setdefault cm k v). length (snd kc) = n"
  by (auto simp add: setdefault_def split: option.splits)

lemma assign_lengths:
  "length v = n \<Longrightarrow> \<forall>kc\<in>set cm. length (snd kc) = n
     \<Longrightarrow> \<forall>kc\<in>set (assign cm k v). length (snd kc) = n"
  by (auto simp add: assign_def)

lemma bin_moods_lengths:
  "\<forall>kc\<in>set cm. length (snd kc) = nat days
     \<Longrightarrow> \<forall>kc\<in>set (bin_moods days i ms cm). length (snd kc) = nat days"
proof (induction days i ms cm rule: bin_moods.induct)
  case (1 days day_idx cm)
  then show ?case by simp
next
  case (2 days day_idx ms cm)
  then show ?case by simp
next
  case (3 days day_idx m ms cm)
  let ?cm' = "setdefault cm m (replicate (nat days) 0)"
  have inv': "\<forall>kc\<in>set ?cm'. length (snd kc) = nat days"
    using "3.prems" by (intro setdefault_lengths) simp_all
  show ?case
  proof (cases "map_of ?cm' m")
    case None
    then show ?thesis using inv' by simp
  next
    case (Some c)
    then have "(m, c) \<in> set ?cm'" by (rule map_of_SomeD)
    with inv' have len: "length c = nat days" by auto
    show ?thesis
    proof (cases "day_idx < length c")
      case True
      have "\<forall>kc\<in>set (assign ?cm' m (c[day_idx := c ! day_idx + 1])). length (snd kc) = nat days"
        using inv' len by (intro assign_lengths) simp_all
      then show ?thesis using "3.IH" [OF refl Some True] Some True by simp
    next
      case False
      then show ?thesis using Some inv' by simp
    qed
  qed
qed

lemma preseed_lengths:
  "\<forall>kc\<in>set cm. length (snd kc) = nat days
     \<Longrightarrow> \<forall>kc\<in>set (preseed days a cm). length (snd kc) = nat days"
proof (cases a)
  case (Emotion e)
  assume "\<forall>kc\<in>set cm. length (snd kc) = nat days"
  then have "\<forall>kc\<in>set (setdefault cm (name e) (replicate (nat days) 0)). length (snd kc) = nat days"
    by (intro setdefault_lengths) simp_all
  then show ?thesis using Emotion by (simp add: preseed_def)
qed (simp_all add: preseed_def)

lemma scan_entry_cases:
  "scan_entry parse start end days a cm = cm
   \<or> (\<exists>i ms. scan_entry parse start end days a cm = bin_moods days i ms cm)"
proof (cases a)
  case (JournalEntry je)
  show ?thesis
  proof (cases "timestamp je")
    case None
    then show ?thesis using JournalEntry by (simp add: scan_entry_def)
  next
    case (Some ts_raw)
    note ts = this
    show ?thesis
    proof (cases "parse ts_raw")
      case None
      then show ?thesis using JournalEntry ts by (simp add: scan_entry_def)
    next
      case (Some t)
      show ?thesis
      proof (cases "moods_detected je")
        case (MoodsList ms)
        then show ?thesis
          using JournalEntry ts Some by (simp add: scan_entry_def Let_def) blast
      qed (use JournalEntry ts Some in \<open>simp_all add: scan_entry_def Let_def\<close>)
    qed
  qed
qed (simp_all add: scan_entry_def)

lemma scan_entry_lengths:
  assumes "\<forall>kc\<in>set cm. length (snd kc) = nat days"
  shows "\<forall>kc\<in>set (scan_entry parse start end days a cm). length (snd kc) = nat days"
  using scan_entry_cases [of parse start "end" days a cm] bin_moods_lengths [OF assms] assms
  by metis

lemma fold_invariant:
  "P s \<Longrightarrow> (\<And>x s. P s \<Longrightarrow> P (f x s)) \<Longrightarrow> P (fold f xs s)"
  by (induction xs arbitrary: s) simp_all

lemma counts_by_emotion_lengths:
  "\<forall>kc\<in>set (counts_by_emotion parse mem start end days). length (snd kc) = nat days"
  unfolding counts_by_emotion_def
  by (intro fold_invariant [where P = "\<lambda>cm. \<forall>kc\<in>set cm. length (snd kc) = nat days"]
      scan_entry_lengths preseed_lengths) simp_all

text \<open>
  Claim C5. For \<open>days \<ge> 0\<close> every array returned by \<open>counts_by_emotion\<close> has length
  \<open>days\<close>; the pre-seeding step and the binning of the moods of an entry (which creates
  arrays for new tags and increments) keep this length.
\<close>

theorem count_arrays_have_window_length:
  assumes "0 \<le> days"
  shows "(\<forall>(k, c)\<in>set (counts_by_emotion parse mem start end days). int (length c) = days)
    \<and> ((\<forall>(k, c)\<in>set cm. int (length c) = days)
         \<longrightarrow> (\<forall>(k, c)\<in>set (preseed days a cm). int (length c) = days)
           \<and> (\<forall>(k, c)\<in>set (bin_moods days i ms cm). int (length c) = days))"
proof -
  have conv: "(\<forall>(k, c)\<in>set m. int (length c) = days) \<longleftrightarrow> (\<forall>kc\<in>set m. length (snd kc) = nat days)"
    for m :: counts_map
    using assms by (auto simp add: nat_eq_iff)
  show ?thesis
    unfolding conv using counts_by_emotion_lengths preseed_lengths bin_moods_lengths by blast
qed

theorem count_arrays_have_window_length_witness:
  "(0::int) \<le> 2
   \<and> list_all (\<lambda>(k, c). int (length c) = 2)
        (counts_by_emotion sample_parse
           [Some (Emotion sample_joy), Some (JournalEntry sample_yesterday_entry)]
           63929088000000000 sample_now 2)
   \<and> map fst (counts_by_emotion sample_parse
           [Some (Emotion sample_joy), Some (JournalEntry sample_yesterday_entry)]
           63929088000000000 sample_now 2) = [''joy'', ''calm'']"
proof -
  have d: "(0::int) \<le> 2" by simp
  have keys: "map fst (counts_by_emotion sample_parse
           [Some (Emotion sample_joy), Some (JournalEntry sample_yesterday_entry)]
           63929088000000000 sample_now 2) = [''joy'', ''calm'']"
    by (simp add: eval_defs replicate_2)
  show ?thesis
    using count_arrays_have_window_length [OF d, of sample_parse
        "[Some (Emotion sample_joy), Some (JournalEntry sample_yesterday_entry)]"
        63929088000000000 sample_now "[]" OtherArchetype 0 "[]"] keys
    by (simp add: list_all_iff)
qed

subsection \<open>Malformed entries\<close>





subsection \<open>The two windows\<close>

text \<open>
  Claim C6. When the analyzer returns, the comparison window ends one second before the
  start of the current window: its upper bound is strictly below the lower bound of the
  current window, and no instant lies in both.
\<close>

theorem comparison_window_precedes_current:
  assumes "trend_analyzer parse (Some mem) now window_days compare_days = Inr (out, ctx')"
  shows "\<exists>ws cs pe.
           window_start now window_days = Inr ws
         \<and> compare_start ws compare_days = Inr cs
         \<and> prev_end ws = Inr pe
         \<and> current out = counts_by_emotion parse mem ws now window_days
         \<and> prev out = counts_by_emotion parse mem cs pe compare_days
         \<and> pe = ws - SECOND_US
         \<and> pe < ws
         \<and> (\<forall>t. \<not> (in_window cs pe t \<and> in_window ws now t))"
proof -
  from assms obtain ws cs pe where
    w: "window_start now window_days = Inr ws" "compare_start ws compare_days = Inr cs"
       "prev_end ws = Inr pe"
    and out: "current out = counts_by_emotion parse mem ws now window_days"
       "prev out = counts_by_emotion parse mem cs pe compare_days"
    by (auto simp add: trend_analyzer_Some)
  from w(3) have pe: "pe = ws - SECOND_US"
    by (simp add: prev_end_def dt_sub_def Let_def split: if_splits)
  then have lt: "pe < ws" by (simp add: SECOND_US_def)
  then have "\<forall>t. \<not> (in_window cs pe t \<and> in_window ws now t)"
    by (auto simp add: in_window_def)
  with w out pe lt show ?thesis by blast
qed

theorem comparison_window_precedes_current_witness:
  "trend_analyzer sample_parse (Some [Some (Emotion sample_joy)]) sample_now 1 1
     = Inr (\<lparr>current = [(''joy'', [0])], prev = [(''joy'', [0])],
             stats = [(''joy'', \<lparr>slope = 0, mean = 0, norm_slope = 0, stat_trend = ''stable''\<rparr>)]\<rparr>,
            Some [Some (Emotion (sample_joy\<lparr>trend := Some ''stable'', trend_score := Some 0\<rparr>))])
   \<and> window_start sample_now 1 = Inr 63929174400000000
   \<and> prev_end 63929174400000000 = Inr 63929174399000000
   \<and> (\<forall>t. \<not> (in_window 63929088000000000 63929174399000000 t
              \<and> in_window 63929174400000000 sample_now t))"
proof -
  have run: "trend_analyzer sample_parse (Some [Some (Emotion sample_joy)]) sample_now 1 1
     = Inr (\<lparr>current = [(''joy'', [0])], prev = [(''joy'', [0])],
             stats = [(''joy'', \<lparr>slope = 0, mean = 0, norm_slope = 0, stat_trend = ''stable''\<rparr>)]\<rparr>,
            Some [Some (Emotion (sample_joy\<lparr>trend := Some ''stable'', trend_score := Some 0\<rparr>))])"
    by (simp add: eval_defs)
  have ws: "window_start sample_now 1 = Inr 63929174400000000"
    by (simp add: eval_defs)
  have cs: "compare_start 63929174400000000 1 = Inr 63929088000000000"
    by (simp add: eval_defs)
  have pe: "prev_end 63929174400000000 = Inr 63929174399000000"
    by (simp add: eval_defs)
  from comparison_window_precedes_current [OF run] obtain ws' cs' pe' where
    b: "window_start sample_now 1 = Inr ws'" "compare_start ws' 1 = Inr cs'" "prev_end ws' = Inr pe'"
    and sep: "\<forall>t. \<not> (in_window cs' pe' t \<and> in_window ws' sample_now t)"
    by blast
  from b(1) ws have "ws' = 63929174400000000" by simp
  moreover from this b(2) cs have "cs' = 63929088000000000" by simp
  moreover from \<open>ws' = 63929174400000000\<close> b(3) pe have "pe' = 63929174399000000" by simp
  ultimately show ?thesis using sep run ws pe by simp
qed

subsection \<open>Repeated analysis\<close>

lemma stats_loop_fst: "fst (stats_loop cm mem) = map (\<lambda>(k, c). (k, compute_stat c)) cm"
  by (induction cm mem rule: stats_loop.induct) (simp_all add: Let_def case_prod_beta)

lemma update_emotion_preseed:
  "map (preseed days) (query (update_emotion em tr ns mem)) = map (preseed days) (query mem)"
  by (induction em tr ns mem rule: update_emotion.induct)
     (simp_all add: query_Nil query_Cons preseed_def)

lemma update_emotion_scan:
  "map (scan_entry parse start end days) (query (update_emotion em tr ns mem))
     = map (scan_entry parse start end days) (query mem)"
  by (induction em tr ns mem rule: update_emotion.induct)
     (simp_all add: query_Nil query_Cons scan_entry_def)

lemma counts_by_emotion_maps:
  "counts_by_emotion parse mem start end days =
     fold (\<lambda>f. f) (map (scan_entry parse start end days) (query mem))
       (fold (\<lambda>f. f) (map (preseed days) (query mem)) [])"
  by (simp add: counts_by_emotion_def fold_map comp_def)

lemma counts_update_emotion:
  "counts_by_emotion parse (update_emotion em tr ns mem) start end days
     = counts_by_emotion parse mem start end days"
  by (simp only: counts_by_emotion_maps update_emotion_preseed update_emotion_scan)

lemma counts_stats_loop:
  "counts_by_emotion parse (snd (stats_loop cm mem)) start end days
     = counts_by_emotion parse mem start end days"
  by (induction cm mem rule: stats_loop.induct)
     (simp_all add: Let_def case_prod_beta counts_update_emotion)

lemma earlier_day_earlier:
  assumes "t div DAY_US < e div DAY_US"
  shows "t \<le> e"
proof (rule ccontr)
  assume "\<not> t \<le> e"
  then have "e div DAY_US \<le> t div DAY_US"
    using DAY_US_pos by (intro zdiv_mono1) simp_all
  with assms show False by simp
qed

lemma scan_entry_parsed:
  assumes "timestamp je = Some ts_raw" "parse ts_raw = Some t"
  shows "scan_entry parse start end days (JournalEntry je) cm =
     (if ts_raw = [] \<or> \<not> in_window start end t
         \<or> delta_days (start_of_day t) start < 0 \<or> days \<le> delta_days (start_of_day t) start
      then cm
      else (case moods_detected je of
              MoodsNone \<Rightarrow> cm
            | MoodsList ms \<Rightarrow> bin_moods days (nat (delta_days (start_of_day t) start)) ms cm
            | MoodsNonIterable \<Rightarrow> cm))"
  using assms by (simp add: scan_entry_def Let_def)

lemma window_test_same_day:
  assumes "e div DAY_US = D" "e' div DAY_US = D"
    and idx: "delta_days (start_of_day t) ((D - wd) * DAY_US) < wd"
  shows "in_window s e t = in_window s e' t"
proof -
  from idx have "t div DAY_US < D" unfolding day_index_eq by linarith
  then have "t div DAY_US < e div DAY_US" "t div DAY_US < e' div DAY_US"
    using assms(1,2) by simp_all
  then have "t \<le> e" "t \<le> e'" by (blast intro: earlier_day_earlier)+
  then show ?thesis unfolding in_window_def by simp
qed

lemma scan_entry_end_same_day:
  assumes "e div DAY_US = D" "e' div DAY_US = D"
  shows "scan_entry parse ((D - wd) * DAY_US) e wd a cm
       = scan_entry parse ((D - wd) * DAY_US) e' wd a cm"
proof (cases a)
  case (JournalEntry je)
  show ?thesis
  proof (cases "timestamp je")
    case None
    then show ?thesis unfolding JournalEntry by (simp add: scan_entry_def)
  next
    case (Some ts_raw)
    note ts = this
    show ?thesis
    proof (cases "parse ts_raw")
      case None
      then show ?thesis unfolding JournalEntry using ts by (simp add: scan_entry_def)
    next
      case (Some t)
      show ?thesis
      proof (cases "delta_days (start_of_day t) ((D - wd) * DAY_US) < wd")
        case True
        have "in_window ((D - wd) * DAY_US) e t = in_window ((D - wd) * DAY_US) e' t"
          by (rule window_test_same_day [OF assms True])
        then show ?thesis
          unfolding JournalEntry scan_entry_parsed [where parse = parse, OF ts Some] by (simp only:)
      next
        case False
        then have "wd \<le> delta_days (start_of_day t) ((D - wd) * DAY_US)" by simp
        then show ?thesis
          unfolding JournalEntry scan_entry_parsed [where parse = parse, OF ts Some] by (simp only: simp_thms if_True)
      qed
    qed
  qed
qed (simp_all add: scan_entry_def)

lemma counts_end_same_day:
  assumes "e div DAY_US = D" "e' div DAY_US = D"
  shows "counts_by_emotion parse mem ((D - wd) * DAY_US) e wd
       = counts_by_emotion parse mem ((D - wd) * DAY_US) e' wd"
proof -
  have "scan_entry parse ((D - wd) * DAY_US) e wd = scan_entry parse ((D - wd) * DAY_US) e' wd"
    by (intro ext scan_entry_end_same_day assms)
  then show ?thesis by (simp add: counts_by_emotion_def)
qed

text \<open>
  Claim C9. A second run on the store that the first run left behind, at a clock value
  of the same UTC day, returns, and its \<open>current\<close>, \<open>stats\<close> and \<open>prev\<close> are those of the
  first run: the write-back changes only fields that the aggregation does not read, and
  the upper bound \<open>now\<close> of the current window does not influence the counts, since the
  entries of the day of \<open>now\<close> are outside the array.
\<close>

theorem analyzer_idempotent:
  assumes day: "now div DAY_US = now' div DAY_US"
    and run: "trend_analyzer parse ctx now window_days compare_days = Inr (out1, ctx1)"
  shows "\<exists>out2 ctx2. trend_analyzer parse ctx1 now' window_days compare_days = Inr (out2, ctx2)
           \<and> current out2 = current out1 \<and> stats out2 = stats out1 \<and> prev out2 = prev out1"
proof (cases ctx)
  case None
  with run have "ctx1 = None" "out1 = \<lparr>current = [], prev = [], stats = []\<rparr>"
    by (simp_all add: trend_analyzer_def)
  then show ?thesis by (simp add: trend_analyzer_def)
next
  case (Some mem)
  let ?D = "now div DAY_US"
  from run Some obtain ws cs pe where
    w: "window_start now window_days = Inr ws" "compare_start ws compare_days = Inr cs"
       "prev_end ws = Inr pe"
    and out1: "out1 = \<lparr>current = counts_by_emotion parse mem ws now window_days,
                  prev = counts_by_emotion parse mem cs pe compare_days,
                  stats = fst (stats_loop (counts_by_emotion parse mem ws now window_days) mem)\<rparr>"
    and ctx1: "ctx1 = Some (snd (stats_loop (counts_by_emotion parse mem ws now window_days) mem))"
    by (auto simp add: trend_analyzer_Some)
  let ?mem1 = "snd (stats_loop (counts_by_emotion parse mem ws now window_days) mem)"
  from w(1) have ws_eq: "ws = (?D - window_days) * DAY_US"
    by (simp add: window_start_eq split: if_splits)
  have w': "window_start now' window_days = Inr ws"
    using w(1) window_start_same_day [OF day] by simp
  have cur: "counts_by_emotion parse ?mem1 ws now' window_days
               = counts_by_emotion parse mem ws now window_days"
    unfolding counts_stats_loop ws_eq
    by (rule counts_end_same_day) (simp_all add: day)
  have prv: "counts_by_emotion parse ?mem1 cs pe compare_days
               = counts_by_emotion parse mem cs pe compare_days"
    by (rule counts_stats_loop)
  have "trend_analyzer parse (Some ?mem1) now' window_days compare_days
      = Inr (\<lparr>current = counts_by_emotion parse ?mem1 ws now' window_days,
               prev = counts_by_emotion parse ?mem1 cs pe compare_days,
               stats = fst (stats_loop (counts_by_emotion parse ?mem1 ws now' window_days) ?mem1)\<rparr>,
             Some (snd (stats_loop (counts_by_emotion parse ?mem1 ws now' window_days) ?mem1)))"
    unfolding trend_analyzer_Some using w' w(2,3) by blast
  then show ?thesis
    unfolding ctx1 out1 cur prv by (simp add: stats_loop_fst)
qed

theorem analyzer_idempotent_witness:
  "sample_now div DAY_US = 63929304001000000 div DAY_US
   \<and> trend_analyzer sample_parse
        (Some [Some (JournalEntry sample_yesterday_entry), Some (Emotion sample_joy)]) sample_now 2 1
     = Inr (\<lparr>current = [(''joy'', [0, 2]), (''calm'', [0, 1])],
             prev = [(''joy'', [0])],
             stats = [(''joy'', \<lparr>slope = 2, mean = 1, norm_slope = 2, stat_trend = ''rising''\<rparr>),
                      (''calm'', \<lparr>slope = 1, mean = 1 / 2, norm_slope = 1, stat_trend = ''rising''\<rparr>)]\<rparr>,
            Some [Some (JournalEntry sample_yesterday_entry),
                  Some (Emotion (sample_joy\<lparr>trend := Some ''rising'', trend_score := Some 2\<rparr>))])
   \<and> (\<exists>out2 ctx2.
         trend_analyzer sample_parse
           (Some [Some (JournalEntry sample_yesterday_entry),
                  Some (Emotion (sample_joy\<lparr>trend := Some ''rising'', trend_score := Some 2\<rparr>))])
           63929304001000000 2 1 = Inr (out2, ctx2)
         \<and> current out2 = [(''joy'', [0, 2]), (''calm'', [0, 1])]
         \<and> stats out2 = [(''joy'', \<lparr>slope = 2, mean = 1, norm_slope = 2, stat_trend = ''rising''\<rparr>),
                          (''calm'', \<lparr>slope = 1, mean = 1 / 2, norm_slope = 1, stat_trend = ''rising''\<rparr>)])"
proof -
  have day: "sample_now div DAY_US = 63929304001000000 div DAY_US"
    by (simp add: sample_now_def DAY_US_def)
  have run: "trend_analyzer sample_parse
        (Some [Some (JournalEntry sample_yesterday_entry), Some (Emotion sample_joy)]) sample_now 2 1
     = Inr (\<lparr>current = [(''joy'', [0, 2]), (''calm'', [0, 1])],
             prev = [(''joy'', [0])],
             stats = [(''joy'', \<lparr>slope = 2, mean = 1, norm_slope = 2, stat_trend = ''rising''\<rparr>),
                      (''calm'', \<lparr>slope = 1, mean = 1 / 2, norm_slope = 1, stat_trend = ''rising''\<rparr>)]\<rparr>,
            Some [Some (JournalEntry sample_yesterday_entry),
                  Some (Emotion (sample_joy\<lparr>trend := Some ''rising'', trend_score := Some 2\<rparr>))])"
    by (simp add: eval_defs replicate_2 upt_conv_Cons)
  show ?thesis
    using analyzer_idempotent [OF day run] day run by simp blast
qed

subsection \<open>Keys of the count map\<close>

lemma setdefault_keys: "set (map fst (setdefault cm k v)) = insert k (set (map fst cm))"
  by (auto simp add: setdefault_def map_of_eq_None_iff split: option.splits dest: map_of_SomeD
      intro: rev_image_eqI)

lemma setdefault_distinct: "distinct (map fst cm) \<Longrightarrow> distinct (map fst (setdefault cm k v))"
  by (auto simp add: setdefault_def map_of_eq_None_iff split: option.splits)

lemma assign_keys: "map fst (assign cm k v) = map fst cm"
  by (induction cm) (auto simp add: assign_def)

lemma bin_moods_keys:
  "(distinct (map fst cm) \<longrightarrow> distinct (map fst (bin_moods days i ms cm)))
   \<and> set (map fst cm) \<subseteq> set (map fst (bin_moods days i ms cm))"
proof (induction days i ms cm rule: bin_moods.induct)
  case (3 days day_idx m ms cm)
  let ?cm' = "setdefault cm m (replicate (nat days) 0)"
  have d': "distinct (map fst cm) \<longrightarrow> distinct (map fst ?cm')"
    by (simp add: setdefault_distinct)
  have k': "set (map fst cm) \<subseteq> set (map fst ?cm')"
    unfolding setdefault_keys by blast
  show ?case
  proof (cases "map_of ?cm' m")
    case None
    then show ?thesis using d' k' by simp
  next
    case (Some c)
    show ?thesis
    proof (cases "day_idx < length c")
      case True
      from "3.IH" [OF refl Some True] d' k' Some True show ?thesis
        by (simp add: assign_keys) blast
    next
      case False
      then show ?thesis using Some d' k' by simp
    qed
  qed
qed simp_all

lemma preseed_keys:
  "(distinct (map fst cm) \<longrightarrow> distinct (map fst (preseed days a cm)))
   \<and> set (map fst cm) \<subseteq> set (map fst (preseed days a cm))"
proof (cases a)
  case (Emotion e)
  have "set (map fst cm) \<subseteq> set (map fst (setdefault cm (name e) (replicate (nat days) 0)))"
    unfolding setdefault_keys by blast
  then show ?thesis using Emotion by (simp add: preseed_def setdefault_distinct)
qed (simp_all add: preseed_def)

lemma scan_entry_keys:
  "(distinct (map fst cm) \<longrightarrow> distinct (map fst (scan_entry parse start end days a cm)))
   \<and> set (map fst cm) \<subseteq> set (map fst (scan_entry parse start end days a cm))"
proof -
  consider "scan_entry parse start end days a cm = cm"
    | i ms where "scan_entry parse start end days a cm = bin_moods days i ms cm"
    using scan_entry_cases [of parse start "end" days a cm] by blast
  then show ?thesis
  proof cases
    case 1
    then show ?thesis by simp
  next
    case 2
    then show ?thesis using bin_moods_keys [of cm days i ms] by simp
  qed
qed

lemma fold_keys:
  assumes "\<And>x cm. (distinct (map fst cm) \<longrightarrow> distinct (map fst (f x cm)))
                  \<and> set (map fst cm) \<subseteq> set (map fst (f x cm))"
  shows "(distinct (map fst cm) \<longrightarrow> distinct (map fst (fold f xs cm)))
         \<and> set (map fst cm) \<subseteq> set (map fst (fold f xs cm))"
proof (induction xs arbitrary: cm)
  case Nil
  show ?case by simp
next
  case (Cons x xs)
  from assms [of cm x] Cons [of "f x cm"] show ?case by auto
qed

lemma preseed_fold_names:
  "Emotion e \<in> set xs \<Longrightarrow> name e \<in> set (map fst (fold (preseed days) xs cm))"
proof (induction xs arbitrary: cm)
  case Nil
  then show ?case by simp
next
  case (Cons x xs)
  show ?case
  proof (cases "x = Emotion e")
    case True
    have "name e \<in> set (map fst (setdefault cm (name e) (replicate (nat days) 0)))"
      unfolding setdefault_keys by simp
    then have "name e \<in> set (map fst (preseed days x cm))"
      unfolding True preseed_def by simp
    then show ?thesis
      using fold_keys [of "preseed days" "preseed days x cm" xs, OF preseed_keys] by auto
  next
    case False
    with Cons show ?thesis by simp
  qed
qed

lemma query_mem: "Some a \<in> set mem \<Longrightarrow> a \<in> set (query mem)"
  by (induction mem) (auto simp add: query_Nil query_Cons split: option.splits)

lemma counts_keys_distinct: "distinct (map fst (counts_by_emotion parse mem start end days))"
proof -
  have "distinct (map fst (fold (preseed days) (query mem) []))"
    using fold_keys [of "preseed days" "[]" "query mem", OF preseed_keys] by simp
  then show ?thesis
    unfolding counts_by_emotion_def
    using fold_keys [of "scan_entry parse start end days" _ "query mem", OF scan_entry_keys]
    by blast
qed

lemma counts_keys_emotions:
  assumes "Some (Emotion e) \<in> set mem"
  shows "name e \<in> set (map fst (counts_by_emotion parse mem start end days))"
proof -
  have "name e \<in> set (map fst (fold (preseed days) (query mem) []))"
    by (intro preseed_fold_names query_mem assms)
  then show ?thesis
    unfolding counts_by_emotion_def
    using fold_keys [of "scan_entry parse start end days" _ "query mem", OF scan_entry_keys]
    by blast
qed

subsection \<open>The write-back\<close>

lemma update_emotion_names:
  "map emotion_name (update_emotion em tr ns mem) = map emotion_name mem"
  by (induction em tr ns mem rule: update_emotion.induct) (simp_all add: emotion_name_def)

lemma update_emotion_length: "length (update_emotion em tr ns mem) = length mem"
  using update_emotion_names [of em tr ns mem] by (metis length_map)

lemma update_emotion_nth:
  "i < length mem \<Longrightarrow>
   update_emotion em tr ns mem ! i =
     (if emotion_name (mem ! i) = Some em \<and> Some em \<notin> set (map emotion_name (take i mem))
      then set_trend tr ns (mem ! i) else mem ! i)"
proof (induction em tr ns mem arbitrary: i rule: update_emotion.induct)
  case (1 em tr ns)
  then show ?case by simp
qed (case_tac i; simp add: emotion_name_def set_trend_def)+

lemma stats_loop_names:
  "map emotion_name (snd (stats_loop cm mem)) = map emotion_name mem"
  by (induction cm mem rule: stats_loop.induct)
     (simp_all add: Let_def case_prod_beta update_emotion_names)

lemma stats_loop_length: "length (snd (stats_loop cm mem)) = length mem"
  using stats_loop_names [of cm mem] by (metis length_map)

lemma stats_loop_nth:
  "distinct (map fst cm) \<Longrightarrow> i < length mem \<Longrightarrow>
   snd (stats_loop cm mem) ! i =
     (case emotion_name (mem ! i) of
        None \<Rightarrow> mem ! i
      | Some n \<Rightarrow>
          if Some n \<in> set (map emotion_name (take i mem)) then mem ! i
          else (case map_of cm n of
                  None \<Rightarrow> mem ! i
                | Some c \<Rightarrow>
                    set_trend (stat_trend (compute_stat c)) (norm_slope (compute_stat c)) (mem ! i)))"
proof (induction cm mem rule: stats_loop.induct)
  case (1 mem)
  then show ?case by (simp split: option.splits)
next
  case (2 em counts rest mem)
  let ?st = "compute_stat counts"
  let ?mem1 = "update_emotion em (stat_trend ?st) (norm_slope ?st) mem"
  have snd_eq: "snd (stats_loop ((em, counts) # rest) mem) = snd (stats_loop rest ?mem1)"
    by (simp add: Let_def case_prod_beta)
  have dist: "distinct (map fst rest)" and fresh: "em \<notin> fst ` set rest"
    using "2.prems"(1) by simp_all
  have i1: "i < length ?mem1" using "2.prems"(2) by (simp add: update_emotion_length)
  have name_i: "emotion_name (?mem1 ! i) = emotion_name (mem ! i)"
    using update_emotion_names [of em "stat_trend ?st" "norm_slope ?st" mem] "2.prems"(2) i1
    by (metis nth_map)
  have names_before: "map emotion_name (take i ?mem1) = map emotion_name (take i mem)"
    using update_emotion_names [of em "stat_trend ?st" "norm_slope ?st" mem]
    by (metis take_map)
  have upd: "?mem1 ! i =
     (if emotion_name (mem ! i) = Some em \<and> Some em \<notin> set (map emotion_name (take i mem))
      then set_trend (stat_trend ?st) (norm_slope ?st) (mem ! i) else mem ! i)"
    by (rule update_emotion_nth [OF "2.prems"(2)])
  have IH: "snd (stats_loop rest ?mem1) ! i =
     (case emotion_name (mem ! i) of
        None \<Rightarrow> ?mem1 ! i
      | Some n \<Rightarrow>
          if Some n \<in> set (map emotion_name (take i mem)) then ?mem1 ! i
          else (case map_of rest n of
                  None \<Rightarrow> ?mem1 ! i
                | Some c \<Rightarrow>
                    set_trend (stat_trend (compute_stat c)) (norm_slope (compute_stat c)) (?mem1 ! i)))"
    using "2.IH" [OF refl refl dist i1] unfolding name_i names_before .
  show ?case
  proof (cases "emotion_name (mem ! i)")
    case None
    then show ?thesis unfolding snd_eq IH upd by simp
  next
    case (Some n)
    show ?thesis
    proof (cases "n = em")
      case True
      have "map_of rest em = None" using fresh by (simp add: map_of_eq_None_iff)
      then show ?thesis unfolding snd_eq IH upd using Some True by simp
    next
      case False
      then show ?thesis unfolding snd_eq IH upd using Some by simp
    qed
  qed
qed

lemma emotion_name_Some_iff:
  "emotion_name a = Some n \<longleftrightarrow> (\<exists>e0. a = Some (Emotion e0) \<and> name e0 = n)"
  by (auto simp add: emotion_name_def split: option.splits archetype.splits)

lemma seen_before_iff:
  assumes "i \<le> length mem"
  shows "Some n \<in> set (map emotion_name (take i mem))
           \<longleftrightarrow> (\<exists>j<i. \<exists>e0. mem ! j = Some (Emotion e0) \<and> name e0 = n)"
proof -
  have "Some n \<in> set (map emotion_name (take i mem))
          \<longleftrightarrow> (\<exists>j<i. emotion_name (mem ! j) = Some n)"
    unfolding set_map nth_image [OF assms, symmetric] image_image
    by (auto simp add: image_iff) (metis atLeastLessThan_iff zero_le)
  then show ?thesis by (simp add: emotion_name_Some_iff)
qed

lemma map_of_stats:
  "map_of (map (\<lambda>(k, c). (k, compute_stat c)) cm) n = map_option compute_stat (map_of cm n)"
  by (induction cm) auto

text \<open>
  Claim C10. The aggregation is a function of the store and returns no store: it only
  reads. When the analyzer returns, the store it leaves has the same anchors in the same
  places; an anchor that holds no Emotion is unchanged; an Emotion that is not the first
  of its name is unchanged; the first Emotion of a name has its \<open>trend\<close> and
  \<open>trend_score\<close> set to the label and normalised slope of that name in \<open>stats\<close>, and
  keeps every other field. No anchor is added.
\<close>

theorem write_back_frame:
  assumes run: "trend_analyzer parse (Some mem) now window_days compare_days = Inr (out, ctx')"
  shows "\<exists>mem'. ctx' = Some mem' \<and> length mem' = length mem \<and>
    (\<forall>i<length mem.
       case mem ! i of
         Some (Emotion e) \<Rightarrow>
           if (\<exists>j<i. \<exists>e0. mem ! j = Some (Emotion e0) \<and> name e0 = name e)
           then mem' ! i = mem ! i
           else (\<exists>st. map_of (stats out) (name e) = Some st
                  \<and> mem' ! i = Some (Emotion (e\<lparr>trend := Some (stat_trend st),
                                                 trend_score := Some (norm_slope st)\<rparr>)))
       | _ \<Rightarrow> mem' ! i = mem ! i)"
proof -
  from run obtain ws where
    out: "stats out = fst (stats_loop (counts_by_emotion parse mem ws now window_days) mem)"
    and ctx': "ctx' = Some (snd (stats_loop (counts_by_emotion parse mem ws now window_days) mem))"
    by (auto simp add: trend_analyzer_Some)
  let ?cur = "counts_by_emotion parse mem ws now window_days"
  let ?mem' = "snd (stats_loop ?cur mem)"
  have "case mem ! i of
         Some (Emotion e) \<Rightarrow>
           if (\<exists>j<i. \<exists>e0. mem ! j = Some (Emotion e0) \<and> name e0 = name e)
           then ?mem' ! i = mem ! i
           else (\<exists>st. map_of (stats out) (name e) = Some st
                  \<and> ?mem' ! i = Some (Emotion (e\<lparr>trend := Some (stat_trend st),
                                                 trend_score := Some (norm_slope st)\<rparr>)))
       | _ \<Rightarrow> ?mem' ! i = mem ! i"
    if i: "i < length mem" for i
  proof -
    note nth = stats_loop_nth [OF counts_keys_distinct i, of parse mem ws now window_days]
    show ?thesis
    proof (cases "emotion_name (mem ! i)")
      case None
      then have "?mem' ! i = mem ! i" using nth by simp
      moreover from None have "\<nexists>e. mem ! i = Some (Emotion e)"
        by (auto simp add: emotion_name_def)
      ultimately show ?thesis by (simp split: option.splits archetype.splits)
    next
      case (Some n)
      then obtain e where e: "mem ! i = Some (Emotion e)" "name e = n"
        unfolding emotion_name_Some_iff by blast
      have seen: "Some n \<in> set (map emotion_name (take i mem))
           \<longleftrightarrow> (\<exists>j<i. \<exists>e0. mem ! j = Some (Emotion e0) \<and> name e0 = name e)"
        using seen_before_iff [of i mem n] i e(2) by simp
      show ?thesis
      proof (cases "\<exists>j<i. \<exists>e0. mem ! j = Some (Emotion e0) \<and> name e0 = name e")
        case True
        then have "?mem' ! i = mem ! i" using nth Some seen by simp
        then show ?thesis using e True by simp
      next
        case False
        have "Some (Emotion e) \<in> set mem" using i e(1) by (metis nth_mem)
        then have "name e \<in> set (map fst ?cur)" by (rule counts_keys_emotions)
        then obtain c where c: "map_of ?cur n = Some c"
          using e(2) by (metis map_of_eq_None_iff not_None_eq set_map)
        have "?mem' ! i = set_trend (stat_trend (compute_stat c)) (norm_slope (compute_stat c)) (mem ! i)"
          using nth Some seen False c by simp
        then have upd: "?mem' ! i = Some (Emotion (e\<lparr>trend := Some (stat_trend (compute_stat c)),
                                                 trend_score := Some (norm_slope (compute_stat c))\<rparr>))"
          using e(1) by (simp add: set_trend_def)
        have "map_of (stats out) (name e) = Some (compute_stat c)"
          unfolding out stats_loop_fst map_of_stats using c e(2) by simp
        with upd have "\<exists>st. map_of (stats out) (name e) = Some st
                  \<and> ?mem' ! i = Some (Emotion (e\<lparr>trend := Some (stat_trend st),
                                                 trend_score := Some (norm_slope st)\<rparr>))"
          by blast
        then show ?thesis using e(1) False by simp blast
      qed
    qed
  qed
  then show ?thesis using ctx' stats_loop_length [of ?cur mem] by blast
qed

theorem write_back_frame_witness:
  "trend_analyzer sample_parse
     (Some [Some (JournalEntry sample_yesterday_entry), Some (Emotion sample_joy), None,
            Some (Emotion sample_joy)]) sample_now 2 1
     = Inr (\<lparr>current = [(''joy'', [0, 2]), (''calm'', [0, 1])],
             prev = [(''joy'', [0])],
             stats = [(''joy'', \<lparr>slope = 2, mean = 1, norm_slope = 2, stat_trend = ''rising''\<rparr>),
                      (''calm'', \<lparr>slope = 1, mean = 1 / 2, norm_slope = 1, stat_trend = ''rising''\<rparr>)]\<rparr>,
            Some [Some (JournalEntry sample_yesterday_entry),
                  Some (Emotion (sample_joy\<lparr>trend := Some ''rising'', trend_score := Some 2\<rparr>)),
                  None,
                  Some (Emotion sample_joy)])
   \<and> (\<exists>mem'. length mem' = 4
         \<and> mem' ! 0 = Some (JournalEntry sample_yesterday_entry)
         \<and> (\<exists>st. map_of [(''joy'', \<lparr>slope = 2, mean = 1, norm_slope = 2, stat_trend = ''rising''\<rparr>),
                            (''calm'', \<lparr>slope = 1, mean = 1 / 2, norm_slope = 1, stat_trend = ''rising''\<rparr>)]
                     ''joy'' = Some st
               \<and> mem' ! 1 = Some (Emotion (sample_joy\<lparr>trend := Some (stat_trend st),
                                                       trend_score := Some (norm_slope st)\<rparr>)))
         \<and> mem' ! 2 = None
         \<and> mem' ! 3 = Some (Emotion sample_joy))"
proof -
  let ?mem = "[Some (JournalEntry sample_yesterday_entry), Some (Emotion sample_joy), None,
            Some (Emotion sample_joy)]"
  have run: "trend_analyzer sample_parse (Some ?mem) sample_now 2 1
     = Inr (\<lparr>current = [(''joy'', [0, 2]), (''calm'', [0, 1])],
             prev = [(''joy'', [0])],
             stats = [(''joy'', \<lparr>slope = 2, mean = 1, norm_slope = 2, stat_trend = ''rising''\<rparr>),
                      (''calm'', \<lparr>slope = 1, mean = 1 / 2, norm_slope = 1, stat_trend = ''rising''\<rparr>)]\<rparr>,
            Some [Some (JournalEntry sample_yesterday_entry),
                  Some (Emotion (sample_joy\<lparr>trend := Some ''rising'', trend_score := Some 2\<rparr>)),
                  None,
                  Some (Emotion sample_joy)])"
    by (simp add: eval_defs replicate_2 upt_conv_Cons)
  from write_back_frame [OF run] obtain mem' where
    len: "length mem' = length ?mem"
    and frame: "\<forall>i<length ?mem.
       case ?mem ! i of
         Some (Emotion e) \<Rightarrow>
           if (\<exists>j<i. \<exists>e0. ?mem ! j = Some (Emotion e0) \<and> name e0 = name e)
           then mem' ! i = ?mem ! i
           else (\<exists>st. map_of [(''joy'', \<lparr>slope = 2, mean = 1, norm_slope = 2, stat_trend = ''rising''\<rparr>),
                            (''calm'', \<lparr>slope = 1, mean = 1 / 2, norm_slope = 1, stat_trend = ''rising''\<rparr>)]
                        (name e) = Some st
                  \<and> mem' ! i = Some (Emotion (e\<lparr>trend := Some (stat_trend st),
                                                 trend_score := Some (norm_slope st)\<rparr>)))
       | _ \<Rightarrow> mem' ! i = ?mem ! i"
    by (auto simp only: analysis.select_convs)
  have l: "length mem' = 4" using len by simp
  have m0: "mem' ! 0 = Some (JournalEntry sample_yesterday_entry)"
    using frame [rule_format, of 0] by simp
  have m1: "\<exists>st. map_of [(''joy'', \<lparr>slope = 2, mean = 1, norm_slope = 2, stat_trend = ''rising''\<rparr>),
                            (''calm'', \<lparr>slope = 1, mean = 1 / 2, norm_slope = 1, stat_trend = ''rising''\<rparr>)]
                     ''joy'' = Some st
               \<and> mem' ! 1 = Some (Emotion (sample_joy\<lparr>trend := Some (stat_trend st),
                                                       trend_score := Some (norm_slope st)\<rparr>))"
    using frame [rule_format, of 1] by (simp add: sample_joy_def)
  have m2: "mem' ! 2 = None"
    using frame [rule_format, of 2] by simp
  have seen: "\<exists>j<3. \<exists>e0. ?mem ! j = Some (Emotion e0) \<and> name e0 = name sample_joy"
    by (rule exI [of _ 1]) simp
  have m3: "mem' ! 3 = Some (Emotion sample_joy)"
    using frame [rule_format, of 3] seen by simp
  show ?thesis using run l m0 m1 m2 m3 by blast
qed

end
